theory Spec2Isabelle
  imports Main "HOL-Library.Product_Lexorder"
begin

section \<open>Conway's Game of Life on a bounded grid: the model of \<^verbatim>\<open>main.py\<close>\<close>

text \<open>
  The program keeps the live cells as a Python set of integer pairs and derives the next
  generation with \<^verbatim>\<open>adjust_grid\<close>, which asks \<^verbatim>\<open>get_neighbors\<close> for the cells around a
  position. Python integers are unbounded, so a coordinate is a pair of \<^typ>\<open>int\<close>.

  The source reads the grid size from the module constants \<^verbatim>\<open>GRID_WIDTH\<close> and
  \<^verbatim>\<open>GRID_HEIGHT\<close> (both 40). The functions below take the two sizes as their first
  arguments \<open>W\<close> and \<open>H\<close>, so that statements about grids of other sizes can be
  made; the program itself is the instance \<open>W = GRID_WIDTH\<close>, \<open>H = GRID_HEIGHT\<close>.
\<close>

subsection \<open>Configuration\<close>

type_synonym coord = "int \<times> int"

definition GRID_WIDTH :: int where
  "GRID_WIDTH = 40"

definition GRID_HEIGHT :: int where
  "GRID_HEIGHT = 40"

subsection \<open>Neighbour enumeration\<close>

text \<open>
  \<^verbatim>\<open>
  def get_neighbors(pos):
      x, y = pos
      neighbors = []
      for dx in [-1, 0, 1]:
          if x + dx < 0 or x + dx >= GRID_WIDTH:
              continue
          for dy in [-1, 0, 1]:
              if y + dy < 0 or y + dy >= GRID_HEIGHT:
                  continue
              if dx == 0 and dy == 0:
                  continue
              neighbors.append((x + dx, y + dy))
      return neighbors
  \<close>
  Each loop appends, in order, what its body contributes for each offset; a
  \<^verbatim>\<open>continue\<close> contributes nothing.
\<close>

definition get_neighbors :: "int \<Rightarrow> int \<Rightarrow> coord \<Rightarrow> coord list" where
  "get_neighbors W H pos =
     (case pos of (x, y) \<Rightarrow>
        concat (map (\<lambda>dx.
          if x + dx < 0 \<or> x + dx \<ge> W then []
          else concat (map (\<lambda>dy.
            if y + dy < 0 \<or> y + dy \<ge> H then []
            else if dx = 0 \<and> dy = 0 then []
            else [(x + dx, y + dy)]) [-1, 0, 1])) [-1, 0, 1]))"

subsection \<open>The next generation\<close>

text \<open>
  \<^verbatim>\<open>
  def adjust_grid(positions):
      all_neighbors = set()
      new_positions = set()

      for position in positions:
          neighbors = get_neighbors(position)
          all_neighbors.update(neighbors)
          alive_neighbors = [n for n in neighbors if n in positions]

          if len(alive_neighbors) in [2, 3]:
              new_positions.add(position)

      for position in all_neighbors:
          neighbors = get_neighbors(position)
          alive_neighbors = [n for n in neighbors if n in positions]

          if len(alive_neighbors) == 3:
              new_positions.add(position)

      return new_positions
  \<close>
  A Python set is a finite set; \<^verbatim>\<open>positions\<close> is read and never written. The list
  comprehension that both \<^verbatim>\<open>for\<close> statements build is \<open>alive_neighbors\<close>. Each loop is a fold of its
  body over the elements in the order the iteration visits them: the first loop carries
  the pair (\<^verbatim>\<open>all_neighbors\<close>, \<^verbatim>\<open>new_positions\<close>), the second carries \<^verbatim>\<open>new_positions\<close>.
\<close>

definition alive_neighbors :: "int \<Rightarrow> int \<Rightarrow> coord set \<Rightarrow> coord \<Rightarrow> coord list" where
  "alive_neighbors W H positions position =
     filter (\<lambda>n. n \<in> positions) (get_neighbors W H position)"

definition survival_step ::
    "int \<Rightarrow> int \<Rightarrow> coord set \<Rightarrow> coord \<Rightarrow> coord set \<times> coord set \<Rightarrow> coord set \<times> coord set" where
  "survival_step W H positions position st =
     (case st of (all_neighbors, new_positions) \<Rightarrow>
        (all_neighbors \<union> set (get_neighbors W H position),
         if length (alive_neighbors W H positions position) \<in> set [2, 3]
         then insert position new_positions else new_positions))"

definition birth_step :: "int \<Rightarrow> int \<Rightarrow> coord set \<Rightarrow> coord \<Rightarrow> coord set \<Rightarrow> coord set" where
  "birth_step W H positions position new_positions =
     (if length (alive_neighbors W H positions position) = 3
      then insert position new_positions else new_positions)"

text \<open>
  Python does not fix the order in which a set is iterated. Both passes are therefore
  modelled for any order: \<open>iter1\<close> lists the elements of \<^verbatim>\<open>positions\<close> for the first
  loop and \<open>iter2\<close> those of \<^verbatim>\<open>all_neighbors\<close> for the second.
\<close>

definition adjust_grid_in_order ::
    "(coord set \<Rightarrow> coord list) \<Rightarrow> (coord set \<Rightarrow> coord list) \<Rightarrow> int \<Rightarrow> int \<Rightarrow> coord set \<Rightarrow> coord set" where
  "adjust_grid_in_order iter1 iter2 W H positions =
     (case fold (survival_step W H positions) (iter1 positions) ({}, {}) of
        (all_neighbors, new_positions) \<Rightarrow>
          fold (birth_step W H positions) (iter2 all_neighbors) new_positions)"

text \<open>
  An iteration visits every element of a finite set once. \<open>adjust_grid\<close> fixes one such
  order, the sorted one, so that it can be evaluated; the result does not depend on the
  choice (lemma \<open>adjust_grid_in_order_eq\<close> below).
\<close>

definition iteration_order :: "(coord set \<Rightarrow> coord list) \<Rightarrow> bool" where
  "iteration_order iter \<longleftrightarrow> (\<forall>A. finite A \<longrightarrow> set (iter A) = A \<and> distinct (iter A))"

definition adjust_grid :: "int \<Rightarrow> int \<Rightarrow> coord set \<Rightarrow> coord set" where
  "adjust_grid W H positions =
     adjust_grid_in_order sorted_list_of_set sorted_list_of_set W H positions"

subsection \<open>Random cells\<close>

text \<open>
  \<^verbatim>\<open>
  def gen(num):
      return set([(random.randrange(0, GRID_HEIGHT), random.randrange(0, GRID_WIDTH))
                  for _ in range(num)])
  \<close>
  \<^verbatim>\<open>random.randrange\<close> belongs to Python's standard library, not to the program. It is
  modelled by its contract: \<^verbatim>\<open>randrange(start, stop)\<close> raises \<^verbatim>\<open>ValueError\<close> when the
  range is empty and otherwise returns some integer \<open>r\<close> with \<open>start \<le> r < stop\<close>.
  Which one depends on the state of the generator, modelled as the sequence of raw
  numbers it is still to produce; a call consumes the first of them, and every value of
  the range is the answer for some raw number.
\<close>

datatype error = ValueError

type_synonym rng = "nat \<Rightarrow> nat"

definition randrange :: "int \<Rightarrow> int \<Rightarrow> rng \<Rightarrow> error + (int \<times> rng)" where
  "randrange start stop g =
     (if stop \<le> start then Inl ValueError
      else Inr (start + int (g 0 mod nat (stop - start)), \<lambda>i. g (Suc i)))"

text \<open>
  The list comprehension makes one round per element of \<^verbatim>\<open>range(num)\<close> (none for \<open>num \<le> 0\<close>); each
  round draws the first component below \<^verbatim>\<open>GRID_HEIGHT\<close>, then the second below
  \<^verbatim>\<open>GRID_WIDTH\<close>.
\<close>

fun gen_draws :: "int \<Rightarrow> int \<Rightarrow> nat \<Rightarrow> rng \<Rightarrow> error + (coord list \<times> rng)" where
  "gen_draws W H 0 g = Inr ([], g)"
| "gen_draws W H (Suc k) g =
     (case randrange 0 H g of
        Inl e \<Rightarrow> Inl e
      | Inr (a, g1) \<Rightarrow>
          (case randrange 0 W g1 of
             Inl e \<Rightarrow> Inl e
           | Inr (b, g2) \<Rightarrow>
               (case gen_draws W H k g2 of
                  Inl e \<Rightarrow> Inl e
                | Inr (rest, g3) \<Rightarrow> Inr ((a, b) # rest, g3))))"

definition gen :: "int \<Rightarrow> int \<Rightarrow> int \<Rightarrow> rng \<Rightarrow> error + (coord set \<times> rng)" where
  "gen W H num g =
     (case gen_draws W H (nat num) g of
        Inl e \<Rightarrow> Inl e
      | Inr (draws, g') \<Rightarrow> Inr (set draws, g'))"

subsection \<open>Session state and the script run\<close>

text \<open>
  \<^verbatim>\<open>st.session_state\<close> holds \<^verbatim>\<open>positions\<close>, \<^verbatim>\<open>playing\<close> and \<^verbatim>\<open>generation\<close>, first
  set to the empty set, \<^verbatim>\<open>False\<close> and 0. At most one button is pressed per run. One run of
  \<^verbatim>\<open>main\<close> handles the button that was pressed, if any, and then the game loop:
  \<^verbatim>\<open>
  if st.button(button_text):  st.session_state.playing = not st.session_state.playing
  if st.button("Stop"):       playing = False; positions = set(); generation = 0
  if st.button("Random"):     positions = gen(random.randrange(200, 400)); generation = 0
  if st.button("Clear"):      positions = set(); generation = 0
  if st.session_state.playing:
      positions = adjust_grid(positions); generation += 1
  \<close>
  Drawing the grid, the pause and the rerun do not change the state and are left out.
\<close>

record session_state =
  positions :: "coord set"
  playing :: bool
  generation :: int

definition initial_session_state :: session_state where
  "initial_session_state = \<lparr>positions = {}, playing = False, generation = 0\<rparr>"

datatype button = Start_Pause | Stop | Random | Clear

definition press_start_pause :: "session_state \<Rightarrow> session_state" where
  "press_start_pause st = st\<lparr>playing := \<not> playing st\<rparr>"

definition press_stop :: "session_state \<Rightarrow> session_state" where
  "press_stop st = st\<lparr>playing := False, positions := {}, generation := 0\<rparr>"

definition press_random ::
    "int \<Rightarrow> int \<Rightarrow> rng \<Rightarrow> session_state \<Rightarrow> error + (session_state \<times> rng)" where
  "press_random W H g st =
     (case randrange 200 400 g of
        Inl e \<Rightarrow> Inl e
      | Inr (num, g1) \<Rightarrow>
          (case gen W H num g1 of
             Inl e \<Rightarrow> Inl e
           | Inr (cells, g2) \<Rightarrow> Inr (st\<lparr>positions := cells, generation := 0\<rparr>, g2)))"

definition press_clear :: "session_state \<Rightarrow> session_state" where
  "press_clear st = st\<lparr>positions := {}, generation := 0\<rparr>"

definition game_loop :: "int \<Rightarrow> int \<Rightarrow> session_state \<Rightarrow> session_state" where
  "game_loop W H st =
     (if playing st
      then st\<lparr>positions := adjust_grid W H (positions st), generation := generation st + 1\<rparr>
      else st)"

definition main_run ::
    "int \<Rightarrow> int \<Rightarrow> button option \<Rightarrow> rng \<Rightarrow> session_state \<Rightarrow> error + (session_state \<times> rng)" where
  "main_run W H pressed g st =
     (case (case pressed of
              None \<Rightarrow> Inr (st, g)
            | Some Start_Pause \<Rightarrow> Inr (press_start_pause st, g)
            | Some Stop \<Rightarrow> Inr (press_stop st, g)
            | Some Random \<Rightarrow> press_random W H g st
            | Some Clear \<Rightarrow> Inr (press_clear st, g)) of
        Inl e \<Rightarrow> Inl e
      | Inr (st', g') \<Rightarrow> Inr (game_loop W H st', g'))"

subsection \<open>Vocabulary of the properties\<close>

text \<open>A coordinate is in bounds when \<open>0 \<le> x < W\<close> and \<open>0 \<le> y < H\<close>.\<close>

definition in_bounds :: "int \<Rightarrow> int \<Rightarrow> coord \<Rightarrow> bool" where
  "in_bounds W H c = (0 \<le> fst c \<and> fst c < W \<and> 0 \<le> snd c \<and> snd c < H)"

text \<open>
  The offsets along one axis that the bounds test of \<^const>\<open>get_neighbors\<close> lets
  through. Used only to organise the proofs.
\<close>

definition offsets :: "int \<Rightarrow> int \<Rightarrow> int list" where
  "offsets W x = filter (\<lambda>d. \<not> (x + d < 0 \<or> x + d \<ge> W)) [-1, 0, 1]"

subsection \<open>The full-grid scan of the specification\<close>

text \<open>
  A second description of the step, written from the specification's words and not from
  the source, for comparison with \<^const>\<open>adjust_grid\<close>: the rule table
  (alive with 0--1 neighbours: dead; alive with 2--3: alive; alive with 4--8: dead; dead
  with 3: alive; dead otherwise: dead) applied to every cell of the grid.
\<close>

definition rule_table :: "bool \<Rightarrow> nat \<Rightarrow> bool" where
  "rule_table alive k =
     (if alive then (if k \<le> 1 then False else if k \<le> 3 then True else False)
      else k = 3)"

definition naive_full_grid_scan :: "int \<Rightarrow> int \<Rightarrow> coord set \<Rightarrow> coord set" where
  "naive_full_grid_scan W H currentLive =
     set (filter (\<lambda>c. rule_table (c \<in> currentLive)
                    (length (filter (\<lambda>n. n \<in> currentLive) (get_neighbors W H c))))
           (List.product [0..W - 1] [0..H - 1]))"

section \<open>Properties of the neighbour enumeration\<close>

lemma concat_skip:
  "concat (map (\<lambda>d. if c d then [] else f d) ds) = concat (map f (filter (\<lambda>d. \<not> c d) ds))"
  by (induction ds) simp_all

lemma concat_guarded_singletons:
  "concat (map (\<lambda>d. if c d then [] else [g d]) ds) = map g (filter (\<lambda>d. \<not> c d) ds)"
  by (induction ds) simp_all

lemma get_neighbors_offsets:
  "get_neighbors W H (x, y) =
     concat (map (\<lambda>dx. concat (map (\<lambda>dy. if dx = 0 \<and> dy = 0 then [] else [(x + dx, y + dy)])
       (offsets H y))) (offsets W x))"
  unfolding get_neighbors_def offsets_def prod.case
  by (simp only: concat_skip)

lemma get_neighbors_product:
  "get_neighbors W H (x, y) =
     map (\<lambda>(dx, dy). (x + dx, y + dy))
       (filter (\<lambda>(dx, dy). \<not> (dx = 0 \<and> dy = 0)) (List.product (offsets W x) (offsets H y)))"
proof -
  have "concat (map (\<lambda>dx. concat (map (\<lambda>dy. if dx = 0 \<and> dy = 0 then [] else [(x + dx, y + dy)]) es)) ds)
      = map (\<lambda>(dx, dy). (x + dx, y + dy))
          (filter (\<lambda>(dx, dy). \<not> (dx = 0 \<and> dy = 0)) (List.product ds es))" for ds es :: "int list"
    by (induction ds) (simp_all add: concat_guarded_singletons filter_map comp_def)
  then show ?thesis
    unfolding get_neighbors_offsets .
qed

lemma mem_offsets:
  "d \<in> set (offsets W x) \<longleftrightarrow> (d = -1 \<or> d = 0 \<or> d = 1) \<and> 0 \<le> x + d \<and> x + d < W"
  unfolding offsets_def by auto

lemma distinct_offsets: "distinct (offsets W x)"
  unfolding offsets_def by simp

lemma offsets_low: "2 \<le> W \<Longrightarrow> offsets W 0 = [0, 1]"
  unfolding offsets_def by simp

lemma offsets_high: "2 \<le> W \<Longrightarrow> offsets W (W - 1) = [-1, 0]"
  unfolding offsets_def by simp

lemma offsets_inner: "0 < x \<Longrightarrow> x < W - 1 \<Longrightarrow> offsets W x = [-1, 0, 1]"
  unfolding offsets_def by simp

lemma mem_get_neighbors_offsets:
  "(a, b) \<in> set (get_neighbors W H (x, y)) \<longleftrightarrow>
     a - x \<in> set (offsets W x) \<and> b - y \<in> set (offsets H y) \<and> (a, b) \<noteq> (x, y)"
proof -
  have "(a, b) \<in> set (get_neighbors W H (x, y)) \<longleftrightarrow>
      (\<exists>dx \<in> set (offsets W x). \<exists>dy \<in> set (offsets H y).
         \<not> (dx = 0 \<and> dy = 0) \<and> a = x + dx \<and> b = y + dy)"
    unfolding get_neighbors_offsets by (auto split: if_splits)
  also have "\<dots> \<longleftrightarrow> (\<exists>dx \<in> set (offsets W x). \<exists>dy \<in> set (offsets H y).
         \<not> (dx = 0 \<and> dy = 0) \<and> dx = a - x \<and> dy = b - y)"
    by (intro bex_cong refl) auto
  also have "\<dots> \<longleftrightarrow> a - x \<in> set (offsets W x) \<and> b - y \<in> set (offsets H y) \<and> (a, b) \<noteq> (x, y)"
    by auto
  finally show ?thesis .
qed

text \<open>
  Membership in the neighbour list, in closed form: the Moore neighbourhood of the
  position, clipped to the grid.
\<close>

lemma mem_get_neighbors:
  "(a, b) \<in> set (get_neighbors W H (x, y)) \<longleftrightarrow>
     \<bar>a - x\<bar> \<le> 1 \<and> \<bar>b - y\<bar> \<le> 1 \<and> (a, b) \<noteq> (x, y) \<and> 0 \<le> a \<and> a < W \<and> 0 \<le> b \<and> b < H"
  unfolding mem_get_neighbors_offsets mem_offsets by (simp only: prod.inject) arith

lemma get_neighbors_in_bounds: "n \<in> set (get_neighbors W H c) \<Longrightarrow> in_bounds W H n"
  by (cases n, cases c) (simp add: mem_get_neighbors in_bounds_def)

lemma get_neighbors_irrefl: "c \<notin> set (get_neighbors W H c)"
  by (cases c) (simp add: mem_get_neighbors)

lemma distinct_get_neighbors: "distinct (get_neighbors W H c)"
proof (cases c)
  case (Pair x y)
  have "inj_on (\<lambda>(dx, dy). (x + dx, y + dy)) A" for A
    by (auto simp: inj_on_def)
  then show ?thesis
    unfolding Pair get_neighbors_product
    by (simp add: distinct_map distinct_product distinct_offsets)
qed

lemma offsets_cases:
  assumes "3 \<le> N" "0 \<le> x" "x < N"
  shows "(x = 0 \<and> offsets N x = [0, 1]) \<or> (x = N - 1 \<and> offsets N x = [-1, 0])
         \<or> (x \<noteq> 0 \<and> x \<noteq> N - 1 \<and> offsets N x = [-1, 0, 1])"
proof -
  consider "x = 0" | "x = N - 1" | "0 < x" "x < N - 1"
    using assms by linarith
  then show ?thesis
  proof cases
    case 1
    then show ?thesis using assms offsets_low [of N] by simp
  next
    case 2
    then show ?thesis using assms offsets_high [of N] by simp
  next
    case 3
    then show ?thesis using offsets_inner [of x N] by simp
  qed
qed

lemma length_get_neighbors:
  assumes "3 \<le> N" "0 \<le> x" "x < N" "0 \<le> y" "y < N"
  shows "length (get_neighbors N N (x, y)) =
           (if (x = 0 \<or> x = N - 1) \<and> (y = 0 \<or> y = N - 1) then 3
            else if (x = 0 \<or> x = N - 1) \<or> (y = 0 \<or> y = N - 1) then 5 else 8)"
  using offsets_cases [OF assms(1,2,3)] offsets_cases [OF assms(1,4,5)] assms(1)
  unfolding get_neighbors_product
  by (elim disjE conjE) simp_all

text \<open>
  Claim C3. On an \<open>N \<times> N\<close> grid with \<open>N \<ge> 3\<close>, the neighbour list of an in-bounds
  coordinate holds only in-bounds coordinates, does not hold the coordinate itself, has
  no duplicates, and has length 3 at a corner, 5 on an edge away from the corners and
  8 in the interior.
\<close>

theorem get_neighbors_shape:
  assumes "3 \<le> N" and "in_bounds N N c"
  shows "(\<forall>n \<in> set (get_neighbors N N c). in_bounds N N n)
       \<and> c \<notin> set (get_neighbors N N c)
       \<and> distinct (get_neighbors N N c)
       \<and> length (get_neighbors N N c) =
           (if (fst c = 0 \<or> fst c = N - 1) \<and> (snd c = 0 \<or> snd c = N - 1) then 3
            else if (fst c = 0 \<or> fst c = N - 1) \<or> (snd c = 0 \<or> snd c = N - 1) then 5
            else 8)"
proof (intro conjI ballI)
  fix n
  assume "n \<in> set (get_neighbors N N c)"
  then show "in_bounds N N n" by (rule get_neighbors_in_bounds)
next
  show "c \<notin> set (get_neighbors N N c)" by (rule get_neighbors_irrefl)
next
  show "distinct (get_neighbors N N c)" by (rule distinct_get_neighbors)
next
  obtain x y where c: "c = (x, y)" by (cases c)
  with assms(2) have "0 \<le> x" "x < N" "0 \<le> y" "y < N"
    by (simp_all add: in_bounds_def)
  from length_get_neighbors [OF assms(1) this] show "length (get_neighbors N N c) =
           (if (fst c = 0 \<or> fst c = N - 1) \<and> (snd c = 0 \<or> snd c = N - 1) then 3
            else if (fst c = 0 \<or> fst c = N - 1) \<or> (snd c = 0 \<or> snd c = N - 1) then 5
            else 8)"
    unfolding c fst_conv snd_conv .
qed

theorem get_neighbors_shape_witness:
  "3 \<le> GRID_WIDTH \<and> in_bounds GRID_WIDTH GRID_WIDTH (0, 7)
   \<and> get_neighbors GRID_WIDTH GRID_WIDTH (0, 7) = [(0, 6), (0, 8), (1, 6), (1, 7), (1, 8)]
   \<and> (0, 7) \<notin> set (get_neighbors GRID_WIDTH GRID_WIDTH (0, 7))
   \<and> distinct (get_neighbors GRID_WIDTH GRID_WIDTH (0, 7))
   \<and> length (get_neighbors GRID_WIDTH GRID_WIDTH (0, 7)) = 5"
proof -
  have h: "3 \<le> GRID_WIDTH" "in_bounds GRID_WIDTH GRID_WIDTH (0, 7)"
    by (simp_all add: GRID_WIDTH_def in_bounds_def)
  have "get_neighbors GRID_WIDTH GRID_WIDTH (0, 7) = [(0, 6), (0, 8), (1, 6), (1, 7), (1, 8)]"
    by (simp add: GRID_WIDTH_def get_neighbors_def)
  with h get_neighbors_shape [OF h] show ?thesis
    by (simp add: GRID_WIDTH_def)
qed

lemma get_neighbors_sym:
  assumes "in_bounds W H a" and "b \<in> set (get_neighbors W H a)"
  shows "a \<in> set (get_neighbors W H b)"
proof -
  obtain ax ay bx by' where ab: "a = (ax, ay)" "b = (bx, by')"
    by (cases a, cases b)
  show ?thesis
    using assms unfolding ab mem_get_neighbors in_bounds_def fst_conv snd_conv prod.inject
    by arith
qed

text \<open>
  Claim C10. The neighbour relation is symmetric on in-bounds coordinates: \<open>b\<close> is in
  the neighbour list of \<open>a\<close> exactly when \<open>a\<close> is in the neighbour list of \<open>b\<close>.
\<close>

theorem get_neighbors_symmetric:
  assumes "in_bounds W H a" and "in_bounds W H b"
  shows "b \<in> set (get_neighbors W H a) \<longleftrightarrow> a \<in> set (get_neighbors W H b)"
  using get_neighbors_sym [OF assms(1), of b] get_neighbors_sym [OF assms(2), of a]
  by blast

theorem get_neighbors_symmetric_witness:
  "in_bounds GRID_WIDTH GRID_HEIGHT (0, 0) \<and> in_bounds GRID_WIDTH GRID_HEIGHT (1, 1)
   \<and> (1, 1) \<in> set (get_neighbors GRID_WIDTH GRID_HEIGHT (0, 0))
   \<and> (0, 0) \<in> set (get_neighbors GRID_WIDTH GRID_HEIGHT (1, 1))"
proof -
  have h: "in_bounds GRID_WIDTH GRID_HEIGHT (0, 0)" "in_bounds GRID_WIDTH GRID_HEIGHT (1, 1)"
    by (simp_all add: GRID_WIDTH_def GRID_HEIGHT_def in_bounds_def)
  have "(1, 1) \<in> set (get_neighbors GRID_WIDTH GRID_HEIGHT (0, 0))"
    by (simp add: GRID_WIDTH_def GRID_HEIGHT_def get_neighbors_def)
  with h get_neighbors_symmetric [OF h] show ?thesis
    by simp
qed

section \<open>Properties of the step\<close>

lemma in_bounds_finite:
  assumes "\<forall>p \<in> L. in_bounds W H p"
  shows "finite L"
proof (rule finite_subset)
  show "L \<subseteq> {0..<W} \<times> {0..<H}"
    using assms by (auto simp: in_bounds_def)
  show "finite ({0..<W} \<times> {0..<H})" by simp
qed

text \<open>
  The list \<open>alive_neighbors\<close> has no duplicates, so its length is the number of
  neighbours of the position that are alive.
\<close>

lemma length_alive_neighbors:
  "length (alive_neighbors W H L c) = card {n \<in> set (get_neighbors W H c). n \<in> L}"
proof -
  have "distinct (alive_neighbors W H L c)"
    unfolding alive_neighbors_def by (simp add: distinct_get_neighbors)
  then have "length (alive_neighbors W H L c) = card (set (alive_neighbors W H L c))"
    by (simp add: distinct_card)
  also have "set (alive_neighbors W H L c) = {n \<in> set (get_neighbors W H c). n \<in> L}"
    unfolding alive_neighbors_def by simp
  finally show ?thesis .
qed

subsection \<open>What the two passes compute\<close>

lemma fold_survival_step:
  "fold (survival_step W H P) xs (A, N) =
     (A \<union> (\<Union>p \<in> set xs. set (get_neighbors W H p)),
      N \<union> {p \<in> set xs. length (alive_neighbors W H P p) = 2 \<or> length (alive_neighbors W H P p) = 3})"
  by (induction xs arbitrary: A N) (auto simp: survival_step_def)

lemma fold_birth_step:
  "fold (birth_step W H P) ys N = N \<union> {p \<in> set ys. length (alive_neighbors W H P p) = 3}"
  by (induction ys arbitrary: N) (auto simp: birth_step_def)

lemma finite_candidates: "finite L \<Longrightarrow> finite (\<Union>p \<in> L. set (get_neighbors W H p))"
  by simp

text \<open>
  Whatever the order of the two iterations, the result is the set of survivors together
  with the candidates that have exactly three live neighbours.
\<close>

lemma adjust_grid_in_order_eq:
  assumes "finite L" "\<forall>A. finite A \<longrightarrow> set (iter1 A) = A" "\<forall>A. finite A \<longrightarrow> set (iter2 A) = A"
  shows "adjust_grid_in_order iter1 iter2 W H L =
     {p \<in> L. length (alive_neighbors W H L p) = 2 \<or> length (alive_neighbors W H L p) = 3}
     \<union> {p \<in> (\<Union>q \<in> L. set (get_neighbors W H q)). length (alive_neighbors W H L p) = 3}"
  using assms finite_candidates [OF assms(1), of W H]
  by (simp add: adjust_grid_in_order_def fold_survival_step fold_birth_step)

lemma sorted_list_of_set_enumerates:
  "\<forall>A::coord set. finite A \<longrightarrow> set (sorted_list_of_set A) = A"
  by simp

lemma adjust_grid_eq:
  assumes "finite L"
  shows "adjust_grid W H L =
     {p \<in> L. length (alive_neighbors W H L p) = 2 \<or> length (alive_neighbors W H L p) = 3}
     \<union> {p \<in> (\<Union>q \<in> L. set (get_neighbors W H q)). length (alive_neighbors W H L p) = 3}"
  unfolding adjust_grid_def
  by (rule adjust_grid_in_order_eq [OF assms sorted_list_of_set_enumerates sorted_list_of_set_enumerates])

text \<open>
  An in-bounds cell with a live neighbour is a neighbour of that live cell, so the second
  loop reaches every in-bounds cell that has three live neighbours.
\<close>

lemma birth_candidate:
  assumes "in_bounds W H c" and "length (alive_neighbors W H L c) = 3"
  shows "c \<in> (\<Union>q \<in> L. set (get_neighbors W H q))"
proof -
  from assms(2) have "alive_neighbors W H L c \<noteq> []" by auto
  then obtain n where n: "n \<in> set (alive_neighbors W H L c)"
    by (cases "alive_neighbors W H L c") auto
  then have "n \<in> L" "n \<in> set (get_neighbors W H c)"
    by (simp_all add: alive_neighbors_def)
  with get_neighbors_sym [OF assms(1)] show ?thesis by blast
qed

lemma mem_adjust_grid:
  assumes "finite L" and "in_bounds W H c"
  shows "c \<in> adjust_grid W H L \<longleftrightarrow>
     (c \<in> L \<and> (length (alive_neighbors W H L c) = 2 \<or> length (alive_neighbors W H L c) = 3))
     \<or> (c \<notin> L \<and> length (alive_neighbors W H L c) = 3)"
  using birth_candidate [OF assms(2), of L] unfolding adjust_grid_eq [OF assms(1)]
  by blast

lemma adjust_grid_in_bounds:
  assumes "\<forall>p \<in> L. in_bounds W H p" and "q \<in> adjust_grid W H L"
  shows "in_bounds W H q"
  using assms get_neighbors_in_bounds [of q W H]
  unfolding adjust_grid_eq [OF in_bounds_finite [OF assms(1)]]
  by blast

subsection \<open>The rule of the game\<close>

text \<open>
  Claim C1. For a live set whose members are all in bounds and an in-bounds coordinate
  \<open>c\<close>: \<open>c\<close> is alive after the step exactly when it is alive and has 2 or 3 live
  neighbours, or it is dead and has exactly 3 live neighbours (B3/S23).
\<close>

theorem adjust_grid_rule:
  assumes "\<forall>p \<in> L. in_bounds W H p" and "in_bounds W H c"
  shows "c \<in> adjust_grid W H L \<longleftrightarrow>
     (c \<in> L \<and> (card {n \<in> set (get_neighbors W H c). n \<in> L} = 2
              \<or> card {n \<in> set (get_neighbors W H c). n \<in> L} = 3))
     \<or> (c \<notin> L \<and> card {n \<in> set (get_neighbors W H c). n \<in> L} = 3)"
  using mem_adjust_grid [OF in_bounds_finite [OF assms(1)] assms(2)]
  unfolding length_alive_neighbors .

theorem adjust_grid_rule_witness:
  "in_bounds GRID_WIDTH GRID_HEIGHT (1, 1) \<and> in_bounds GRID_WIDTH GRID_HEIGHT (1, 2)
   \<and> in_bounds GRID_WIDTH GRID_HEIGHT (1, 3) \<and> in_bounds GRID_WIDTH GRID_HEIGHT (0, 2)
   \<and> (0, 2) \<notin> ({(1, 1), (1, 2), (1, 3)} :: coord set)
   \<and> card {n \<in> set (get_neighbors GRID_WIDTH GRID_HEIGHT (0, 2)). n \<in> {(1, 1), (1, 2), (1, 3)}} = 3
   \<and> (0, 2) \<in> adjust_grid GRID_WIDTH GRID_HEIGHT {(1, 1), (1, 2), (1, 3)}"
proof -
  have h: "\<forall>p \<in> {(1, 1), (1, 2), (1, 3)}. in_bounds GRID_WIDTH GRID_HEIGHT p"
    "in_bounds GRID_WIDTH GRID_HEIGHT (0, 2)"
    by (simp_all add: GRID_WIDTH_def GRID_HEIGHT_def in_bounds_def)
  have "length (alive_neighbors GRID_WIDTH GRID_HEIGHT {(1, 1), (1, 2), (1, 3)} (0, 2)) = 3"
    by (simp add: GRID_WIDTH_def GRID_HEIGHT_def alive_neighbors_def get_neighbors_def)
  then have k: "card {n \<in> set (get_neighbors GRID_WIDTH GRID_HEIGHT (0, 2)). n \<in> {(1, 1), (1, 2), (1, 3)}} = 3"
    unfolding length_alive_neighbors .
  from h k adjust_grid_rule [OF h] show ?thesis
    by simp
qed

subsection \<open>The step against the full-grid scan\<close>

lemma rule_table_iff:
  "rule_table alive k \<longleftrightarrow> (alive \<and> (k = 2 \<or> k = 3)) \<or> (\<not> alive \<and> k = 3)"
  unfolding rule_table_def by auto

lemma mem_naive_full_grid_scan:
  "c \<in> naive_full_grid_scan W H L \<longleftrightarrow>
     in_bounds W H c \<and> rule_table (c \<in> L) (length (alive_neighbors W H L c))"
  unfolding naive_full_grid_scan_def alive_neighbors_def in_bounds_def
  by (cases c) auto

text \<open>
  Claim C2. For a live set whose members are all in bounds, the two-pass step of the
  source returns the same live set as the full-grid scan that applies the rule table to
  every in-bounds cell.
\<close>

theorem adjust_grid_refines_full_scan:
  assumes "\<forall>p \<in> L. in_bounds W H p"
  shows "adjust_grid W H L = naive_full_grid_scan W H L"
proof (rule set_eqI)
  fix c
  note fin = in_bounds_finite [OF assms]
  show "c \<in> adjust_grid W H L \<longleftrightarrow> c \<in> naive_full_grid_scan W H L"
  proof (cases "in_bounds W H c")
    case True
    then show ?thesis
      unfolding mem_naive_full_grid_scan mem_adjust_grid [OF fin True] rule_table_iff
      by blast
  next
    case False
    with adjust_grid_in_bounds [OF assms, of c] show ?thesis
      unfolding mem_naive_full_grid_scan by blast
  qed
qed

theorem adjust_grid_refines_full_scan_witness:
  "in_bounds GRID_WIDTH GRID_HEIGHT (0, 0) \<and> in_bounds GRID_WIDTH GRID_HEIGHT (0, 1)
   \<and> in_bounds GRID_WIDTH GRID_HEIGHT (1, 0)
   \<and> adjust_grid GRID_WIDTH GRID_HEIGHT {(0, 0), (0, 1), (1, 0)} = {(0, 0), (0, 1), (1, 0), (1, 1)}
   \<and> naive_full_grid_scan GRID_WIDTH GRID_HEIGHT {(0, 0), (0, 1), (1, 0)} = {(0, 0), (0, 1), (1, 0), (1, 1)}"
proof -
  have h: "\<forall>p \<in> {(0, 0), (0, 1), (1, 0)}. in_bounds GRID_WIDTH GRID_HEIGHT p"
    by (simp add: GRID_WIDTH_def GRID_HEIGHT_def in_bounds_def)
  have "adjust_grid GRID_WIDTH GRID_HEIGHT {(0, 0), (0, 1), (1, 0)} = {(0, 0), (0, 1), (1, 0), (1, 1)}"
    by code_simp
  with h adjust_grid_refines_full_scan [OF h] show ?thesis
    by simp
qed

subsection \<open>Bounds\<close>

text \<open>
  Claim C4. Stepping preserves the bounds invariant: when every member of the live set
  satisfies \<open>0 \<le> x < W\<close> and \<open>0 \<le> y < H\<close>, so does every member of the next live set.
\<close>

theorem adjust_grid_preserves_bounds:
  assumes "\<forall>p \<in> L. in_bounds W H p"
  shows "\<forall>q \<in> adjust_grid W H L. in_bounds W H q"
  using adjust_grid_in_bounds [OF assms] by blast

theorem adjust_grid_preserves_bounds_witness:
  "in_bounds GRID_WIDTH GRID_HEIGHT (0, 0) \<and> in_bounds GRID_WIDTH GRID_HEIGHT (0, 1)
   \<and> in_bounds GRID_WIDTH GRID_HEIGHT (1, 0)
   \<and> (1, 1) \<in> adjust_grid GRID_WIDTH GRID_HEIGHT {(0, 0), (0, 1), (1, 0)}
   \<and> in_bounds GRID_WIDTH GRID_HEIGHT (1, 1)"
proof -
  have h: "\<forall>p \<in> {(0, 0), (0, 1), (1, 0)}. in_bounds GRID_WIDTH GRID_HEIGHT p"
    by (simp add: GRID_WIDTH_def GRID_HEIGHT_def in_bounds_def)
  have m: "(1, 1) \<in> adjust_grid GRID_WIDTH GRID_HEIGHT {(0, 0), (0, 1), (1, 0)}"
    by code_simp
  from adjust_grid_preserves_bounds [OF h] m
  have "in_bounds GRID_WIDTH GRID_HEIGHT (1, 1)" by blast
  with h m show ?thesis
    by simp
qed

subsection \<open>Independence of the grid size away from the far edges\<close>

lemma offsets_grid_indep: "x + 1 < W \<Longrightarrow> x + 1 < W' \<Longrightarrow> offsets W x = offsets W' x"
  unfolding offsets_def by simp

lemma get_neighbors_grid_indep:
  assumes "fst c + 1 < W" "fst c + 1 < W'" "snd c + 1 < H" "snd c + 1 < H'"
  shows "get_neighbors W H c = get_neighbors W' H' c"
proof (cases c)
  case (Pair x y)
  with assms show ?thesis
    unfolding Pair get_neighbors_offsets
    using offsets_grid_indep [of x W W'] offsets_grid_indep [of y H H'] by simp
qed

lemma alive_neighbors_grid_indep:
  assumes "\<forall>q \<in> L. in_bounds W H q \<and> in_bounds W' H' q"
  shows "length (alive_neighbors W H L p) = length (alive_neighbors W' H' L p)"
proof -
  have "{n \<in> set (get_neighbors W H p). n \<in> L} = {n \<in> set (get_neighbors W' H' p). n \<in> L}"
    using assms by (cases p) (auto simp: mem_get_neighbors in_bounds_def)
  then show ?thesis
    unfolding length_alive_neighbors by simp
qed

text \<open>
  Two grids give the same step on a live set that keeps one cell of distance from the
  right and bottom edges of both.
\<close>

lemma adjust_grid_grid_indep:
  assumes "\<forall>q \<in> L. 0 \<le> fst q \<and> 0 \<le> snd q \<and> fst q + 1 < W \<and> fst q + 1 < W'
                  \<and> snd q + 1 < H \<and> snd q + 1 < H'"
  shows "adjust_grid W H L = adjust_grid W' H' L"
proof -
  have ib: "\<forall>q \<in> L. in_bounds W H q \<and> in_bounds W' H' q"
    using assms by (auto simp: in_bounds_def)
  then have fin: "finite L"
    using in_bounds_finite [of L W H] by blast
  have nb: "get_neighbors W H q = get_neighbors W' H' q" if "q \<in> L" for q
    using assms that by (intro get_neighbors_grid_indep) auto
  show ?thesis
    unfolding adjust_grid_eq [OF fin] alive_neighbors_grid_indep [OF ib, of _]
    using nb by auto
qed

text \<open>
  Claim C5. On a grid of at least \<open>5 \<times> 5\<close>, one step takes the vertical blinker
  \<open>{(1,1), (1,2), (1,3)}\<close> to \<open>{(0,2), (1,2), (2,2)}\<close>, and a second step takes it back.
\<close>

theorem blinker_period_two:
  assumes "5 \<le> W" and "5 \<le> H"
  shows "adjust_grid W H {(1, 1), (1, 2), (1, 3)} = {(0, 2), (1, 2), (2, 2)}
       \<and> adjust_grid W H (adjust_grid W H {(1, 1), (1, 2), (1, 3)}) = {(1, 1), (1, 2), (1, 3)}"
proof -
  have a: "adjust_grid W H {(1, 1), (1, 2), (1, 3)} = adjust_grid 5 5 {(1, 1), (1, 2), (1, 3)}"
    using assms by (intro adjust_grid_grid_indep) simp
  have b: "adjust_grid W H {(0, 2), (1, 2), (2, 2)} = adjust_grid 5 5 {(0, 2), (1, 2), (2, 2)}"
    using assms by (intro adjust_grid_grid_indep) simp
  have c: "adjust_grid 5 5 {(1, 1), (1, 2), (1, 3)} = {(0, 2), (1, 2), (2, 2)}"
    by code_simp
  have d: "adjust_grid 5 5 {(0, 2), (1, 2), (2, 2)} = {(1, 1), (1, 2), (1, 3)}"
    by code_simp
  show ?thesis
    unfolding a c b d by simp
qed

theorem blinker_period_two_witness:
  "5 \<le> GRID_WIDTH \<and> 5 \<le> GRID_HEIGHT
   \<and> adjust_grid GRID_WIDTH GRID_HEIGHT {(1, 1), (1, 2), (1, 3)} = {(0, 2), (1, 2), (2, 2)}
   \<and> adjust_grid GRID_WIDTH GRID_HEIGHT (adjust_grid GRID_WIDTH GRID_HEIGHT {(1, 1), (1, 2), (1, 3)})
       = {(1, 1), (1, 2), (1, 3)}"
proof -
  have h: "5 \<le> GRID_WIDTH" "5 \<le> GRID_HEIGHT"
    by (simp_all add: GRID_WIDTH_def GRID_HEIGHT_def)
  from h blinker_period_two [OF h] show ?thesis
    by blast
qed

subsection \<open>Determinism\<close>

text \<open>
  Claim C6. The step is deterministic: for a live set and a fixed grid, two applications
  return equal live sets. The only freedom of a run is the order in which the two passes
  visit their sets, so the statement is that any two runs, each with its own two
  iteration orders, agree.
\<close>

theorem adjust_grid_deterministic:
  assumes "finite L"
    and "iteration_order i1" and "iteration_order i2"
    and "iteration_order j1" and "iteration_order j2"
  shows "adjust_grid_in_order i1 i2 W H L = adjust_grid_in_order j1 j2 W H L"
proof -
  have e: "\<forall>A. finite A \<longrightarrow> set (it A) = A" if "iteration_order it" for it
    using that unfolding iteration_order_def by blast
  show ?thesis
    unfolding adjust_grid_in_order_eq [OF assms(1) e [OF assms(2)] e [OF assms(3)]]
      adjust_grid_in_order_eq [OF assms(1) e [OF assms(4)] e [OF assms(5)]] ..
qed

theorem adjust_grid_deterministic_witness:
  "finite ({(1, 1), (1, 2), (1, 3)} :: coord set)
   \<and> iteration_order sorted_list_of_set
   \<and> iteration_order (\<lambda>A. rev (sorted_list_of_set A))
   \<and> adjust_grid_in_order sorted_list_of_set (\<lambda>A. rev (sorted_list_of_set A))
        GRID_WIDTH GRID_HEIGHT {(1, 1), (1, 2), (1, 3)}
     = adjust_grid_in_order (\<lambda>A. rev (sorted_list_of_set A)) sorted_list_of_set
        GRID_WIDTH GRID_HEIGHT {(1, 1), (1, 2), (1, 3)}"
proof -
  have f: "finite ({(1, 1), (1, 2), (1, 3)} :: coord set)" by simp
  have o1: "iteration_order sorted_list_of_set"
    by (simp add: iteration_order_def)
  have o2: "iteration_order (\<lambda>A. rev (sorted_list_of_set A))"
    by (simp add: iteration_order_def)
  from f o1 o2 adjust_grid_deterministic [OF f o1 o2 o2 o1, of GRID_WIDTH GRID_HEIGHT]
  show ?thesis by simp
qed

section \<open>Properties of the random cells\<close>

lemma randrange_ok:
  assumes "start < stop"
  shows "\<exists>r. randrange start stop g = Inr (r, \<lambda>i. g (Suc i)) \<and> start \<le> r \<and> r < stop"
proof -
  have "g 0 mod nat (stop - start) < nat (stop - start)"
    using assms by simp
  then have "int (g 0 mod nat (stop - start)) < stop - start"
    by (simp only: zless_nat_eq_int_zless)
  with assms show ?thesis
    unfolding randrange_def by simp
qed

lemma gen_draws_ok:
  assumes "0 < W" "0 < H"
  shows "\<exists>ds g'. gen_draws W H k g = Inr (ds, g') \<and> length ds = k
           \<and> (\<forall>c \<in> set ds. 0 \<le> fst c \<and> fst c < H \<and> 0 \<le> snd c \<and> snd c < W)"
proof (induction k arbitrary: g)
  case 0
  show ?case by simp
next
  case (Suc k)
  obtain a where a: "randrange 0 H g = Inr (a, \<lambda>i. g (Suc i))" "0 \<le> a" "a < H"
    using randrange_ok [OF assms(2), of g] by blast
  obtain b where b: "randrange 0 W (\<lambda>i. g (Suc i)) = Inr (b, \<lambda>i. g (Suc (Suc i)))" "0 \<le> b" "b < W"
    using randrange_ok [OF assms(1), of "\<lambda>i. g (Suc i)"] by blast
  obtain ds g' where r: "gen_draws W H k (\<lambda>i. g (Suc (Suc i))) = Inr (ds, g')" "length ds = k"
      "\<forall>c \<in> set ds. 0 \<le> fst c \<and> fst c < H \<and> 0 \<le> snd c \<and> snd c < W"
    using Suc.IH [of "\<lambda>i. g (Suc (Suc i))"] by blast
  show ?case
    using a b r by simp
qed

text \<open>
  On any grid with positive sizes \<open>gen\<close> returns, with at most \<open>num\<close> cells; the first
  component of a cell lies below the height and the second below the width.
\<close>

lemma gen_ok:
  assumes "0 < W" "0 < H"
  shows "\<exists>S g'. gen W H num g = Inr (S, g') \<and> card S \<le> nat num
           \<and> (\<forall>c \<in> S. 0 \<le> fst c \<and> fst c < H \<and> 0 \<le> snd c \<and> snd c < W)"
proof -
  obtain ds g' where r: "gen_draws W H (nat num) g = Inr (ds, g')" "length ds = nat num"
      "\<forall>c \<in> set ds. 0 \<le> fst c \<and> fst c < H \<and> 0 \<le> snd c \<and> snd c < W"
    using gen_draws_ok [OF assms, of "nat num" g] by blast
  have "card (set ds) \<le> nat num"
    using card_length [of ds] r(2) by simp
  with r show ?thesis
    unfolding gen_def by simp
qed

text \<open>
  Claim C7. For every non-negative count, \<open>gen\<close> on the program's grid returns a live
  set with at most \<open>count\<close> members, every one of them in bounds.
\<close>

theorem gen_size_and_bounds:
  assumes "0 \<le> count"
  shows "\<exists>S g'. gen GRID_WIDTH GRID_HEIGHT count g = Inr (S, g')
           \<and> int (card S) \<le> count
           \<and> (\<forall>c \<in> S. in_bounds GRID_WIDTH GRID_HEIGHT c)"
proof -
  obtain S g' where r: "gen GRID_WIDTH GRID_HEIGHT count g = Inr (S, g')" "card S \<le> nat count"
      "\<forall>c \<in> S. 0 \<le> fst c \<and> fst c < GRID_HEIGHT \<and> 0 \<le> snd c \<and> snd c < GRID_WIDTH"
    using gen_ok [of GRID_WIDTH GRID_HEIGHT count g]
    by (auto simp: GRID_WIDTH_def GRID_HEIGHT_def)
  from r(2) assms have "int (card S) \<le> count" by linarith
  moreover from r(3) have "\<forall>c \<in> S. in_bounds GRID_WIDTH GRID_HEIGHT c"
    by (simp add: in_bounds_def GRID_WIDTH_def GRID_HEIGHT_def)
  ultimately show ?thesis using r(1) by blast
qed

theorem gen_size_and_bounds_witness:
  "(0 :: int) \<le> 3
   \<and> map_sum id fst (gen GRID_WIDTH GRID_HEIGHT 3 (\<lambda>i. 47 * i + 5)) = Inr {(5, 12), (19, 26), (33, 0)}
   \<and> int (card ({(5, 12), (19, 26), (33, 0)} :: coord set)) \<le> 3
   \<and> in_bounds GRID_WIDTH GRID_HEIGHT (5, 12) \<and> in_bounds GRID_WIDTH GRID_HEIGHT (19, 26)
   \<and> in_bounds GRID_WIDTH GRID_HEIGHT (33, 0)"
proof -
  have e: "map_sum id fst (gen GRID_WIDTH GRID_HEIGHT 3 (\<lambda>i. 47 * i + 5))
             = Inr {(5, 12), (19, 26), (33, 0)}"
    by code_simp
  obtain S g' where r: "gen GRID_WIDTH GRID_HEIGHT 3 (\<lambda>i. 47 * i + 5) = Inr (S, g')"
      "int (card S) \<le> 3" "\<forall>c \<in> S. in_bounds GRID_WIDTH GRID_HEIGHT c"
    using gen_size_and_bounds [of 3 "\<lambda>i. 47 * i + 5"] by auto
  from e r(1) have "S = {(5, 12), (19, 26), (33, 0)}" by simp
  with e r(2,3) show ?thesis by simp
qed

section \<open>Properties of the buttons\<close>

text \<open>
  Claim C9. The clear operation produces the empty live set and sets the generation
  counter to 0, whatever the live set and the generation were.
\<close>

theorem press_clear_resets:
  "positions (press_clear st) = {} \<and> generation (press_clear st) = 0"
  by (simp add: press_clear_def)

text \<open>
  The same holds at the end of the script run when the simulation is paused. When it is
  playing, the game loop of the same run follows the handler: the live set is still
  empty and the counter shows 1.
\<close>

lemma adjust_grid_empty: "adjust_grid W H {} = {}"
  by (simp add: adjust_grid_eq)

lemma main_run_clear:
  "main_run W H (Some Clear) g st =
     Inr (st\<lparr>positions := {}, generation := (if playing st then 1 else 0)\<rparr>, g)"
  by (simp add: main_run_def press_clear_def game_loop_def adjust_grid_empty)

end
